theory Spec2Isabelle
  imports Main "HOL-Library.Multiset"
begin

section \<open>Enumerations and identities\<close>

text \<open>
  Modelled from the spec: the enumerations of \<^verbatim>\<open>gisim/classes/enums.py\<close> (player
  identity, board position, element, elemental reaction, skill category, nationality,
  weapon category) and the identity of an entity, which are not among the sources at
  hand. \<^verbatim>\<open>character.py\<close> only compares their members with \<^verbatim>\<open>==\<close> and names the
  members \<^verbatim>\<open>ElementType.NONE\<close> and \<^verbatim>\<open>ElementalReactionType.NONE\<close>. Members are
  therefore identified by a number; the two named members are constructors of their own.
  An entity's \<^verbatim>\<open>_uuid\<close>, the process-unique opaque id that \<^verbatim>\<open>Entity.__init__\<close>
  generates, is a number as well.
\<close>

type_synonym PlayerID = nat
type_synonym CharPos = nat
type_synonym SkillType = nat
type_synonym Nation = nat
type_synonym WeaponType = nat
type_synonym uuid = nat

datatype ElementType = ElementType_NONE | ElementType_member nat

datatype ElementalReactionType = ElementalReactionType_NONE | ElementalReactionType_member nat

datatype py_error = IndexError | LookupError | AssertionError

section \<open>Skills and character cards\<close>

text \<open>
  \<^verbatim>\<open>class Skill\<close>: the cost is a dictionary, or \<^verbatim>\<open>None\<close> when nothing is to be paid.
  The dictionary is kept as an association list.
\<close>

record Skill =
  name :: string
  RAW_COST :: "(ElementType \<times> int) list option"
  skill_TYPE :: SkillType
  current_cost :: "(ElementType \<times> int) list option"

definition Skill_init :: "string \<Rightarrow> (ElementType \<times> int) list option \<Rightarrow> SkillType \<Rightarrow> Skill" where
  "Skill_init n cost skill_type =
     \<lparr>name = n, RAW_COST = cost, skill_TYPE = skill_type, current_cost = cost\<rparr>"

text \<open>
  The card template read by \<^verbatim>\<open>CharacterEntity.__init__\<close>: the attributes of
  \<^verbatim>\<open>CHARACTER_CARDS[id]\<close> that the constructor copies.
\<close>

record CharacterCard =
  element_type :: ElementType
  nations :: "Nation list"
  weapon_type :: WeaponType
  skills :: "Skill list"
  health_point :: int
  power :: int
  max_power :: int

section \<open>Character entities\<close>

record CharacterEntity =
  uuid :: uuid
  player_id :: PlayerID
  position :: CharPos
  name :: string
  active :: bool
  alive :: bool
  elemental_infusion :: ElementType
  elemental_attachment :: ElementType
  char_id :: nat
  character_card :: CharacterCard
  element_type :: ElementType
  nationalities :: "Nation list"
  weapon_type :: WeaponType
  skills :: "Skill list"
  skill_num :: int
  skill_names :: "string list"
  health_point :: int
  power :: int
  max_power :: int

text \<open>
  \<^verbatim>\<open>CharacterEntity.__init__\<close>. The tables \<^verbatim>\<open>CHARACTER_NAME2ID\<close> and
  \<^verbatim>\<open>CHARACTER_CARDS\<close> are parameters; a lookup that finds nothing raises.
  The fresh \<^verbatim>\<open>_uuid\<close> of \<^verbatim>\<open>Entity.__init__\<close> is a parameter too.
\<close>

definition CharacterEntity_init ::
  "(string \<Rightarrow> nat option) \<Rightarrow> (nat \<Rightarrow> CharacterCard option) \<Rightarrow> uuid \<Rightarrow>
     string \<Rightarrow> PlayerID \<Rightarrow> CharPos \<Rightarrow> py_error + CharacterEntity" where
  "CharacterEntity_init CHARACTER_NAME2ID CHARACTER_CARDS fresh_uuid n pid pos =
     (case CHARACTER_NAME2ID n of
        None \<Rightarrow> Inl LookupError
      | Some i \<Rightarrow>
          (case CHARACTER_CARDS i of
             None \<Rightarrow> Inl LookupError
           | Some template \<Rightarrow>
               Inr \<lparr>uuid = fresh_uuid, player_id = pid, position = pos, name = n,
                     active = False, alive = True,
                     elemental_infusion = ElementType_NONE,
                     elemental_attachment = ElementType_NONE,
                     char_id = i, character_card = template,
                     element_type = CharacterCard.element_type template,
                     nationalities = CharacterCard.nations template,
                     weapon_type = CharacterCard.weapon_type template,
                     skills = CharacterCard.skills template,
                     skill_num = int (length (CharacterCard.skills template)),
                     skill_names = map Skill.name (CharacterCard.skills template),
                     health_point = CharacterCard.health_point template,
                     power = CharacterCard.power template,
                     max_power = CharacterCard.max_power template\<rparr>))"

text \<open>
  \<^verbatim>\<open>get_raw_skill\<close>. Each selector is optional (\<^verbatim>\<open>None\<close> by default); the result is
  \<^verbatim>\<open>Inl AssertionError\<close> when an assertion fails, \<^verbatim>\<open>Inr (Some s)\<close> when a skill
  is returned and \<^verbatim>\<open>Inr None\<close> when the function falls off its end, returning
  \<^verbatim>\<open>None\<close>. After the assertion the index is within the list, so the negative
  indices of Python lists never come into play; \<^verbatim>\<open>list.index\<close> finds the first
  occurrence.
\<close>

fun index_of :: "'a list \<Rightarrow> 'a \<Rightarrow> nat" where
  "index_of [] y = 0"
| "index_of (x # xs) y = (if x = y then 0 else Suc (index_of xs y))"

text \<open>\<^verbatim>\<open>xs[i]\<close> on a Python list: an index from \<open>-len\<close> to \<open>-1\<close> counts from
  the end, any other index outside the list raises.\<close>

definition py_getitem :: "'a list \<Rightarrow> int \<Rightarrow> py_error + 'a" where
  "py_getitem xs i =
     (if 0 \<le> i \<and> i < int (length xs) then Inr (xs ! nat i)
      else if - int (length xs) \<le> i \<and> i < 0 then Inr (xs ! nat (int (length xs) + i))
      else Inl IndexError)"

definition get_raw_skill ::
  "CharacterEntity \<Rightarrow> int option \<Rightarrow> string option \<Rightarrow> SkillType option \<Rightarrow> py_error + Skill option" where
  "get_raw_skill self id' skill_name skill_type =
     (case id' of
        Some i \<Rightarrow>
          if 0 \<le> i \<and> i \<le> skill_num self - 1
          then (case py_getitem (skills self) i of Inl e \<Rightarrow> Inl e | Inr s \<Rightarrow> Inr (Some s))
          else Inl AssertionError
      | None \<Rightarrow>
          (case skill_name of
             Some sn \<Rightarrow>
               if sn \<in> set (skill_names self)
               then (case py_getitem (skills self) (int (index_of (skill_names self) sn)) of
                       Inl e \<Rightarrow> Inl e | Inr s \<Rightarrow> Inr (Some s))
               else Inl AssertionError
           | None \<Rightarrow>
               if skill_type \<noteq> None then Inr None else Inl AssertionError))"

section \<open>Messages\<close>

text \<open>
  Modelled from the spec: the message classes of \<^verbatim>\<open>gisim/classes/message.py\<close>, which
  is not among the sources at hand. Every message has a sender identity and the list
  \<^verbatim>\<open>responded_entities\<close> of the entities that have responded to it; the variants are
  UseSkill (user position, skill, resolved target list), ChangeCharacter (target player
  and position), DealDamage (list of tuples of target player, target position, element
  and amount, and the elemental reaction determined so far) and CharacterDied (player
  and position). The fields are named as \<^verbatim>\<open>character.py\<close> reads them and as it passes
  them to the constructors. A message built by \<^verbatim>\<open>msg_handler\<close> starts with an empty
  \<^verbatim>\<open>responded_entities\<close>. \<open>OtherMsg\<close> stands for every message class that
  \<^verbatim>\<open>msg_handler\<close> does not test for. The priority key is neither read nor set by
  \<^verbatim>\<open>character.py\<close>; the order in which the queue compares messages
  (\<^verbatim>\<open>Message.__lt__\<close>) is the parameter \<open>lt\<close> of everything below.
\<close>

datatype msg_body =
    UseSkillMsg CharPos string "(PlayerID \<times> CharPos) list"
  | ChangeCharacterMsg "PlayerID \<times> CharPos"
  | DealDamageMsg "(PlayerID \<times> CharPos \<times> ElementType \<times> int) list" ElementalReactionType
  | CharacterDiedMsg "PlayerID \<times> CharPos"
  | OtherMsg nat

record Message =
  sender_id :: PlayerID
  responded_entities :: "uuid list"
  body :: msg_body

definition new_DealDamageMsg ::
  "PlayerID \<Rightarrow> (PlayerID \<times> CharPos \<times> ElementType \<times> int) list \<Rightarrow> ElementalReactionType \<Rightarrow> Message" where
  "new_DealDamageMsg sender tgts reaction =
     \<lparr>sender_id = sender, responded_entities = [], body = DealDamageMsg tgts reaction\<rparr>"

definition new_CharacterDiedMsg :: "PlayerID \<Rightarrow> PlayerID \<times> CharPos \<Rightarrow> Message" where
  "new_CharacterDiedMsg sender tgt =
     \<lparr>sender_id = sender, responded_entities = [], body = CharacterDiedMsg tgt\<rparr>"

section \<open>The priority queue\<close>

text \<open>
  \<^verbatim>\<open>queue.PriorityQueue\<close> keeps its items in the list \<^verbatim>\<open>queue\<close>, a binary heap
  maintained by \<^verbatim>\<open>heapq.heappush\<close> and \<^verbatim>\<open>heapq.heappop\<close>. The two are written
  out here as \<^verbatim>\<open>heapq\<close> has them (\<^verbatim>\<open>_siftdown\<close> and \<^verbatim>\<open>_siftup\<close> with the
  loops as recursive functions that carry the list and the position of the hole).
\<close>

function siftdown_loop ::
  "('a \<Rightarrow> 'a \<Rightarrow> bool) \<Rightarrow> 'a \<Rightarrow> 'a list \<Rightarrow> nat \<Rightarrow> nat \<Rightarrow> 'a list \<times> nat" where
  "siftdown_loop lt newitem heap startpos pos =
     (if pos > startpos then
        (let parentpos = (pos - 1) div 2;
             parent = heap ! parentpos
         in if lt newitem parent
            then siftdown_loop lt newitem (heap[pos := parent]) startpos parentpos
            else (heap, pos))
      else (heap, pos))"
  by pat_completeness auto
termination
  by (relation "measure (\<lambda>(lt, newitem, heap, startpos, pos). pos)") auto

declare siftdown_loop.simps [simp del]

definition siftdown :: "('a \<Rightarrow> 'a \<Rightarrow> bool) \<Rightarrow> 'a list \<Rightarrow> nat \<Rightarrow> nat \<Rightarrow> 'a list" where
  "siftdown lt heap startpos pos =
     (let newitem = heap ! pos;
          (heap', pos') = siftdown_loop lt newitem heap startpos pos
      in heap'[pos' := newitem])"

function siftup_loop ::
  "('a \<Rightarrow> 'a \<Rightarrow> bool) \<Rightarrow> nat \<Rightarrow> 'a list \<Rightarrow> nat \<Rightarrow> nat \<Rightarrow> 'a list \<times> nat" where
  "siftup_loop lt endpos heap pos childpos =
     (if childpos < endpos then
        (let rightpos = childpos + 1;
             childpos' = (if rightpos < endpos \<and> \<not> lt (heap ! childpos) (heap ! rightpos)
                          then rightpos else childpos);
             heap' = heap[pos := heap ! childpos']
         in siftup_loop lt endpos heap' childpos' (2 * childpos' + 1))
      else (heap, pos))"
  by pat_completeness auto
termination
  by (relation "measure (\<lambda>(lt, endpos, heap, pos, childpos). endpos - childpos)") auto

declare siftup_loop.simps [simp del]

definition siftup :: "('a \<Rightarrow> 'a \<Rightarrow> bool) \<Rightarrow> 'a list \<Rightarrow> nat \<Rightarrow> 'a list" where
  "siftup lt heap pos =
     (let endpos = length heap;
          startpos = pos;
          newitem = heap ! pos;
          (heap', pos') = siftup_loop lt endpos heap pos (2 * pos + 1)
      in siftdown lt (heap'[pos' := newitem]) startpos pos')"

definition heappush :: "('a \<Rightarrow> 'a \<Rightarrow> bool) \<Rightarrow> 'a list \<Rightarrow> 'a \<Rightarrow> 'a list" where
  "heappush lt heap item = siftdown lt (heap @ [item]) 0 (length (heap @ [item]) - 1)"

text \<open>\<^verbatim>\<open>heappop\<close> returns the popped item and the heap left; on an empty list
  \<^verbatim>\<open>heap.pop()\<close> raises.\<close>

definition heappop :: "('a \<Rightarrow> 'a \<Rightarrow> bool) \<Rightarrow> 'a list \<Rightarrow> py_error + ('a \<times> 'a list)" where
  "heappop lt heap =
     (if heap = [] then Inl IndexError
      else (let lastelt = last heap; heap' = butlast heap
            in if heap' \<noteq> []
               then (let returnitem = heap' ! 0
                     in Inr (returnitem, siftup lt (heap'[0 := lastelt]) 0))
               else Inr (lastelt, heap')))"

text \<open>
  Messages are objects: \<^verbatim>\<open>msg_handler\<close> appends to the \<^verbatim>\<open>responded_entities\<close> of
  a message that the queue holds, also after a \<^verbatim>\<open>put\<close> has moved it within the heap.
  The state of a queue is therefore the list \<open>queue\<close> of references, in heap order,
  and the \<open>memory\<close> of message objects, where a reference is an index and a new
  object is appended.
\<close>

record msg_queue =
  queue :: "nat list"
  memory :: "Message list"

definition ref_lt :: "(Message \<Rightarrow> Message \<Rightarrow> bool) \<Rightarrow> Message list \<Rightarrow> nat \<Rightarrow> nat \<Rightarrow> bool" where
  "ref_lt lt mem a b = lt (mem ! a) (mem ! b)"

text \<open>\<^verbatim>\<open>PriorityQueue.put\<close> on an unbounded queue: the new object is stored and its
  reference pushed.\<close>

definition put :: "(Message \<Rightarrow> Message \<Rightarrow> bool) \<Rightarrow> msg_queue \<Rightarrow> Message \<Rightarrow> msg_queue" where
  "put lt q item =
     (let mem = memory q @ [item]
      in \<lparr>queue = heappush (ref_lt lt mem) (queue q) (length (memory q)), memory = mem\<rparr>)"

text \<open>\<^verbatim>\<open>PriorityQueue.get\<close> waits while the queue is empty: with nobody else to
  fill it the call does not return, which is \<open>None\<close> here.\<close>

definition get :: "(Message \<Rightarrow> Message \<Rightarrow> bool) \<Rightarrow> msg_queue \<Rightarrow> (nat \<times> msg_queue) option" where
  "get lt q =
     (case heappop (ref_lt lt (memory q)) (queue q) of
        Inl e \<Rightarrow> None
      | Inr (item, heap') \<Rightarrow> Some (item, q\<lparr>queue := heap'\<rparr>))"

text \<open>\<^verbatim>\<open>msg.responded_entities.append(self._uuid)\<close> on the object at reference \<open>r\<close>.\<close>

definition append_responded :: "msg_queue \<Rightarrow> nat \<Rightarrow> uuid \<Rightarrow> msg_queue" where
  "append_responded q r u =
     q\<lparr>memory := (memory q)[r := (memory q ! r)\<lparr>responded_entities :=
                                    responded_entities (memory q ! r) @ [u]\<rparr>]\<rparr>"

section \<open>The message handler\<close>

text \<open>
  What a call does: it returns a Boolean, raises, or does not return. The character and
  the queue are returned as the call leaves them, also when it raises.
\<close>

datatype outcome = Returned bool | Raised py_error | Blocked

text \<open>The \<^verbatim>\<open>DealDamageMsg\<close> branch: the body of the loop over \<^verbatim>\<open>msg.targets\<close>
  for one tuple, then the loop. \<open>r\<close> is the message object \<^verbatim>\<open>msg\<close>; the state is
  \<^verbatim>\<open>updated\<close>, the character and the queue.\<close>

definition deal_damage_body ::
  "(Message \<Rightarrow> Message \<Rightarrow> bool) \<Rightarrow> nat \<Rightarrow> PlayerID \<times> CharPos \<times> ElementType \<times> int \<Rightarrow>
     bool \<times> CharacterEntity \<times> msg_queue \<Rightarrow> bool \<times> CharacterEntity \<times> msg_queue" where
  "deal_damage_body lt r tgt st =
     (case tgt of (target_id, target_pos, element_type', dmg_val) \<Rightarrow>
      case st of (updated, self, q) \<Rightarrow>
        if player_id self = target_id \<and> position self = target_pos then
          (let self1 = self\<lparr>health_point := health_point self - min (health_point self) dmg_val\<rparr>;
               (self2, q2) =
                 (if health_point self1 = 0
                  then (self1\<lparr>alive := False\<rparr>,
                        put lt q (new_CharacterDiedMsg (player_id self1)
                                    (player_id self1, position self1)))
                  else (self1, q))
           in (True, self2, append_responded q2 r (uuid self2)))
        else (updated, self, q))"

fun deal_damage_loop ::
  "(Message \<Rightarrow> Message \<Rightarrow> bool) \<Rightarrow> nat \<Rightarrow> (PlayerID \<times> CharPos \<times> ElementType \<times> int) list \<Rightarrow>
     bool \<times> CharacterEntity \<times> msg_queue \<Rightarrow> bool \<times> CharacterEntity \<times> msg_queue" where
  "deal_damage_loop lt r [] st = st"
| "deal_damage_loop lt r (tgt # rest) st =
     deal_damage_loop lt r rest (deal_damage_body lt r tgt st)"

definition msg_handler ::
  "(Message \<Rightarrow> Message \<Rightarrow> bool) \<Rightarrow> CharacterEntity \<Rightarrow> msg_queue \<Rightarrow>
     outcome \<times> CharacterEntity \<times> msg_queue" where
  "msg_handler lt self q =
     (case queue q of
        [] \<Rightarrow> (Raised IndexError, self, q)
      | r # _ \<Rightarrow>
          (let msg = memory q ! r in
           if uuid self \<in> set (responded_entities msg) then (Returned False, self, q)
           else
             (case body msg of
                UseSkillMsg user_pos skill_name skill_target \<Rightarrow>
                  if user_pos = position self then
                    (case get lt q of
                       None \<Rightarrow> (Blocked, self, q)
                     | Some (_, q1) \<Rightarrow>
                         (case skill_target of
                            [] \<Rightarrow> (Raised IndexError, self, q1)
                          | (target_player, target_pos) # _ \<Rightarrow>
                              (Returned True, self,
                               put lt q1
                                 (new_DealDamageMsg (player_id self)
                                    [(target_player, target_pos, ElementType_NONE, 2)]
                                    ElementalReactionType_NONE))))
                  else (Returned False, self, q)
              | ChangeCharacterMsg target \<Rightarrow>
                  if player_id self = fst target then
                    (if position self = snd target then
                       (Returned True, self\<lparr>active := True\<rparr>, append_responded q r (uuid self))
                     else if position self \<noteq> snd target \<and> active self then
                       (Returned True, self\<lparr>active := False\<rparr>, append_responded q r (uuid self))
                     else (Returned False, self, q))
                  else (Returned False, self, q)
              | DealDamageMsg targets reaction \<Rightarrow>
                  (case deal_damage_loop lt r targets (False, self, q) of
                     (updated, self', q') \<Rightarrow> (Returned updated, self', q'))
              | _ \<Rightarrow> (Returned False, self, q))))"

section \<open>Notions used to state the properties\<close>

text \<open>The message \<^verbatim>\<open>msg_queue.queue[0]\<close>, and the messages of a queue in heap order.\<close>

definition head_message :: "msg_queue \<Rightarrow> Message" where
  "head_message q = memory q ! (queue q ! 0)"

definition contents :: "msg_queue \<Rightarrow> Message list" where
  "contents q = map (\<lambda>r. memory q ! r) (queue q)"

text \<open>Every reference of the queue is an object of the memory.\<close>

definition wf_queue :: "msg_queue \<Rightarrow> bool" where
  "wf_queue q = list_all (\<lambda>r. r < length (memory q)) (queue q)"

text \<open>The damage tuples of a message (none unless it is a \<^verbatim>\<open>DealDamageMsg\<close>), and the
  amounts of the tuples addressed to a character, in order.\<close>

definition damage_targets :: "Message \<Rightarrow> (PlayerID \<times> CharPos \<times> ElementType \<times> int) list" where
  "damage_targets m = (case body m of DealDamageMsg tgts reaction \<Rightarrow> tgts | _ \<Rightarrow> [])"

definition is_DealDamageMsg :: "Message \<Rightarrow> bool" where
  "is_DealDamageMsg m = (case body m of DealDamageMsg tgts reaction \<Rightarrow> True | _ \<Rightarrow> False)"

definition is_ChangeCharacterMsg :: "Message \<Rightarrow> bool" where
  "is_ChangeCharacterMsg m = (case body m of ChangeCharacterMsg tgt \<Rightarrow> True | _ \<Rightarrow> False)"

definition addressed ::
  "CharacterEntity \<Rightarrow> (PlayerID \<times> CharPos \<times> ElementType \<times> int) list \<Rightarrow> int list" where
  "addressed self tgts =
     map (\<lambda>(p, pos, e, d). d)
       (filter (\<lambda>(p, pos, e, d). p = player_id self \<and> pos = position self) tgts)"

text \<open>The amounts that the head message of a queue addresses to a character.\<close>

definition addressed_amounts :: "CharacterEntity \<Rightarrow> msg_queue \<Rightarrow> int list" where
  "addressed_amounts self q = addressed self (damage_targets (head_message q))"

text \<open>A queue whose head is a \<^verbatim>\<open>DealDamageMsg\<close> that the character has not responded to.\<close>

definition fresh_damage_event :: "CharacterEntity \<Rightarrow> msg_queue \<Rightarrow> bool" where
  "fresh_damage_event self q =
     (queue q \<noteq> [] \<and> is_DealDamageMsg (head_message q) \<and>
      uuid self \<notin> set (responded_entities (head_message q)))"

text \<open>
  One character handles one event after the other: the \<open>n\<close>-th call of
  \<^verbatim>\<open>msg_handler\<close> is on the \<open>n\<close>-th queue of the list, whatever else happened to the
  queues in between. A call that does not return a value ends the run, as the exception
  would. The result is the character at the end and, for each call made, what it did and
  the queue it left.
\<close>

fun handle_events ::
  "(Message \<Rightarrow> Message \<Rightarrow> bool) \<Rightarrow> CharacterEntity \<Rightarrow> msg_queue list \<Rightarrow>
     CharacterEntity \<times> (outcome \<times> msg_queue) list" where
  "handle_events lt self [] = (self, [])"
| "handle_events lt self (q # qs) =
     (case msg_handler lt self q of
        (Returned b, self', q') \<Rightarrow>
          (case handle_events lt self' qs of
             (self'', rs) \<Rightarrow> (self'', (Returned b, q') # rs))
      | (out, self', q') \<Rightarrow> (self', [(out, q')]))"

text \<open>
  One queue is presented to the characters of a list, one after the other in the order
  of the list; each handles the head of the queue as the previous one left it. A call
  that does not return a value ends the run.
\<close>

fun present_to_all ::
  "(Message \<Rightarrow> Message \<Rightarrow> bool) \<Rightarrow> CharacterEntity list \<Rightarrow> msg_queue \<Rightarrow>
     outcome list \<times> CharacterEntity list \<times> msg_queue" where
  "present_to_all lt [] q = ([], [], q)"
| "present_to_all lt (c # cs) q =
     (case msg_handler lt c q of
        (Returned b, c', q') \<Rightarrow>
          (case present_to_all lt cs q' of
             (outs, cs', q'') \<Rightarrow> (Returned b # outs, c' # cs', q''))
      | (out, c', q') \<Rightarrow> ([out], c' # cs, q'))"

text \<open>The number of characters of a player that are active.\<close>

definition active_count :: "PlayerID \<Rightarrow> CharacterEntity list \<Rightarrow> nat" where
  "active_count p cs = length (filter (\<lambda>c. player_id c = p \<and> active c) cs)"

text \<open>What \<^verbatim>\<open>__init__\<close> establishes between \<^verbatim>\<open>skills\<close>, \<^verbatim>\<open>skill_num\<close> and
  \<^verbatim>\<open>skill_names\<close>.\<close>

definition skills_consistent :: "CharacterEntity \<Rightarrow> bool" where
  "skills_consistent self =
     (skill_num self = int (length (skills self)) \<and>
      skill_names self = map Skill.name (skills self))"

section \<open>Example data\<close>

text \<open>An order of messages for the examples: by the rank of the message class.\<close>

definition example_rank :: "Message \<Rightarrow> nat" where
  "example_rank m =
     (case body m of
        CharacterDiedMsg tgt \<Rightarrow> 0
      | DealDamageMsg tgts reaction \<Rightarrow> 1
      | ChangeCharacterMsg tgt \<Rightarrow> 2
      | UseSkillMsg user_pos skill_name skill_target \<Rightarrow> 3
      | OtherMsg k \<Rightarrow> 4)"

definition example_lt :: "Message \<Rightarrow> Message \<Rightarrow> bool" where
  "example_lt a b = (example_rank a < example_rank b)"

definition example_card :: CharacterCard where
  "example_card =
     \<lparr>CharacterCard.element_type = ElementType_member 1,
      CharacterCard.nations = [1],
      CharacterCard.weapon_type = 2,
      CharacterCard.skills =
        [Skill_init ''Normal Attack'' (Some [(ElementType_member 1, 1)]) 0,
         Skill_init ''Elemental Skill'' (Some [(ElementType_member 1, 3)]) 1,
         Skill_init ''Passive'' None 2],
      CharacterCard.health_point = 10,
      CharacterCard.power = 0,
      CharacterCard.max_power = 2\<rparr>"

text \<open>Tables with one character card.\<close>

definition example_NAME2ID :: "string \<Rightarrow> nat option" where
  "example_NAME2ID n = (if n = ''Example'' then Some 0 else None)"

definition example_CARDS :: "nat \<Rightarrow> CharacterCard option" where
  "example_CARDS i = (if i = 0 then Some example_card else None)"

text \<open>A character with the given identity, owner, position, active flag, alive flag and
  health, the rest as \<^verbatim>\<open>__init__\<close> sets it from \<open>example_card\<close>.\<close>

definition example_character ::
  "uuid \<Rightarrow> PlayerID \<Rightarrow> CharPos \<Rightarrow> bool \<Rightarrow> bool \<Rightarrow> int \<Rightarrow> CharacterEntity" where
  "example_character u pid pos act alv hp =
     \<lparr>uuid = u, player_id = pid, position = pos, name = ''Example'',
      active = act, alive = alv,
      elemental_infusion = ElementType_NONE, elemental_attachment = ElementType_NONE,
      char_id = 0, character_card = example_card,
      element_type = CharacterCard.element_type example_card,
      nationalities = CharacterCard.nations example_card,
      weapon_type = CharacterCard.weapon_type example_card,
      skills = CharacterCard.skills example_card,
      skill_num = int (length (CharacterCard.skills example_card)),
      skill_names = map Skill.name (CharacterCard.skills example_card),
      health_point = hp, power = CharacterCard.power example_card,
      max_power = CharacterCard.max_power example_card\<rparr>"

text \<open>A queue that holds one message.\<close>

definition single_queue :: "Message \<Rightarrow> msg_queue" where
  "single_queue m = \<lparr>queue = [0], memory = [m]\<rparr>"

definition message :: "PlayerID \<Rightarrow> uuid list \<Rightarrow> msg_body \<Rightarrow> Message" where
  "message sender responded b = \<lparr>sender_id = sender, responded_entities = responded, body = b\<rparr>"

text \<open>Queues that hold one event: damage tuples with the given amounts, sent by player
  2 to the character at position 0 of player 1; a change of the active character; the use
  of a skill.\<close>

definition damage_event :: "int list \<Rightarrow> msg_queue" where
  "damage_event ds =
     single_queue (message 2 []
       (DealDamageMsg (map (\<lambda>d. (1, 0, ElementType_NONE, d)) ds) ElementalReactionType_NONE))"

definition change_event :: "PlayerID \<Rightarrow> CharPos \<Rightarrow> msg_queue" where
  "change_event p x = single_queue (message p [] (ChangeCharacterMsg (p, x)))"

definition use_skill_event :: "PlayerID \<Rightarrow> CharPos \<Rightarrow> (PlayerID \<times> CharPos) list \<Rightarrow> msg_queue" where
  "use_skill_event p x tg = single_queue (message p [] (UseSkillMsg x ''Normal Attack'' tg))"

section \<open>The heap operations keep the items\<close>

text \<open>
  While an item sifts, the list has a hole at the current position: putting the sifted
  item into the hole gives a list with the items of the start.
\<close>

lemma mset_move_hole:
  assumes "i < length xs" "j < length xs"
  shows "mset (xs[i := xs ! j, j := x]) = mset (xs[i := x])"
proof (cases "i = j")
  case True
  then show ?thesis by simp
next
  case False
  have "mset ((xs[i := x])[j := (xs[i := x]) ! i, i := (xs[i := x]) ! j]) = mset (xs[i := x])"
    using assms by (intro mset_swap) simp_all
  moreover have "(xs[i := x])[j := (xs[i := x]) ! i, i := (xs[i := x]) ! j] = xs[i := xs ! j, j := x]"
    using False assms by (simp add: list_eq_iff_nth_eq nth_list_update)
  ultimately show ?thesis by simp
qed

lemma siftdown_loop_hole:
  "pos < length heap \<Longrightarrow> siftdown_loop lt x heap startpos pos = (h, p) \<Longrightarrow>
     p < length h \<and> length h = length heap \<and> mset (h[p := x]) = mset (heap[pos := x])"
proof (induction lt x heap startpos pos rule: siftdown_loop.induct)
  case (1 lt newitem heap startpos pos)
  show ?case
  proof (cases "pos > startpos \<and> lt newitem (heap ! ((pos - 1) div 2))")
    case True
    then have par: "(pos - 1) div 2 < length heap" using "1.prems"(1) by simp
    have rec: "siftdown_loop lt newitem (heap[pos := heap ! ((pos - 1) div 2)]) startpos ((pos - 1) div 2) = (h, p)"
      using "1.prems"(2) True by (subst (asm) siftdown_loop.simps) (simp add: Let_def)
    have "p < length h \<and> length h = length (heap[pos := heap ! ((pos - 1) div 2)]) \<and>
          mset (h[p := newitem]) = mset ((heap[pos := heap ! ((pos - 1) div 2)])[(pos - 1) div 2 := newitem])"
      using "1.IH"[OF _ refl refl _ _ rec] True par by simp
    then show ?thesis using mset_move_hole[OF "1.prems"(1) par, of newitem] by simp
  next
    case False
    then have "(h, p) = (heap, pos)"
      using "1.prems"(2) by (subst (asm) siftdown_loop.simps) (auto simp: Let_def split: if_splits)
    then show ?thesis using "1.prems"(1) by simp
  qed
qed

lemma mset_siftdown: "pos < length heap \<Longrightarrow> mset (siftdown lt heap startpos pos) = mset heap"
proof -
  assume a: "pos < length heap"
  obtain h p where hp: "siftdown_loop lt (heap ! pos) heap startpos pos = (h, p)" by force
  from siftdown_loop_hole[OF a hp] show ?thesis
    by (simp add: siftdown_def hp)
qed

lemma siftup_loop_hole:
  "pos < length heap \<Longrightarrow> endpos = length heap \<Longrightarrow> siftup_loop lt endpos heap pos childpos = (h, p) \<Longrightarrow>
     p < length h \<and> length h = length heap \<and> mset (h[p := x]) = mset (heap[pos := x])"
proof (induction lt endpos heap pos childpos rule: siftup_loop.induct)
  case (1 lt endpos heap pos childpos)
  show ?case
  proof (cases "childpos < endpos")
    case True
    define c where "c = (if childpos + 1 < endpos \<and> \<not> lt (heap ! childpos) (heap ! (childpos + 1))
                          then childpos + 1 else childpos)"
    have c: "c < length heap" using True "1.prems"(2) by (simp add: c_def)
    have rec: "siftup_loop lt endpos (heap[pos := heap ! c]) c (2 * c + 1) = (h, p)"
      using "1.prems"(3) True unfolding c_def
      by (subst (asm) siftup_loop.simps) (simp only: Let_def if_True)
    have "p < length h \<and> length h = length (heap[pos := heap ! c]) \<and>
          mset (h[p := x]) = mset ((heap[pos := heap ! c])[c := x])"
      using "1.IH"[OF True refl c_def refl _ _ rec] c "1.prems"(2) by simp
    then show ?thesis using mset_move_hole[OF "1.prems"(1) c, of x] by simp
  next
    case False
    then have "(h, p) = (heap, pos)"
      using "1.prems"(3) by (subst (asm) siftup_loop.simps) (auto simp: Let_def split: if_splits)
    then show ?thesis using "1.prems"(1) by simp
  qed
qed

lemma mset_siftup: "pos < length heap \<Longrightarrow> mset (siftup lt heap pos) = mset heap"
proof -
  assume a: "pos < length heap"
  obtain h p where hp: "siftup_loop lt (length heap) heap pos (2 * pos + 1) = (h, p)" by force
  from siftup_loop_hole[OF a refl hp, of "heap ! pos"]
  have "p < length h" "mset (h[p := heap ! pos]) = mset heap" by simp_all
  then show ?thesis
    unfolding siftup_def Let_def hp prod.case by (simp add: mset_siftdown)
qed

lemma mset_heappush: "mset (heappush lt heap item) = add_mset item (mset heap)"
  by (simp add: heappush_def mset_siftdown)

lemma heappop_Cons:
  "\<exists>heap'. heappop lt (x # xs) = Inr (x, heap') \<and> mset heap' = mset xs"
proof (cases "xs = []")
  case True
  then show ?thesis by (simp add: heappop_def)
next
  case False
  let ?b = "butlast (x # xs)"
  have b: "?b = x # butlast xs" using False by simp
  have "mset (siftup lt (?b[0 := last (x # xs)]) 0) = mset (?b[0 := last (x # xs)])"
    using False by (intro mset_siftup) simp
  also have "\<dots> = add_mset (last xs) (mset (butlast xs))"
    using False by (simp add: b)
  also have "\<dots> = mset xs"
    using False by (metis append_butlast_last_id mset.simps(2) mset_append union_mset_add_mset_right add.right_neutral mset.simps(1))
  finally show ?thesis using False by (simp add: heappop_def Let_def b)
qed

section \<open>Queue operations\<close>

lemma memory_put: "memory (put lt q m) = memory q @ [m]"
  by (simp add: put_def Let_def)

lemma queue_put: "mset (queue (put lt q m)) = add_mset (length (memory q)) (mset (queue q))"
  by (simp add: put_def Let_def mset_heappush)

lemma get_Cons:
  "queue q = r # rest \<Longrightarrow>
     \<exists>heap'. get lt q = Some (r, q\<lparr>queue := heap'\<rparr>) \<and> mset heap' = mset rest"
  using heappop_Cons[of "ref_lt lt (memory q)" r rest] by (auto simp: get_def)


section \<open>The handler on each kind of message\<close>

lemma msg_handler_use_skill:
  assumes q: "queue q = r # rest"
    and b: "body (memory q ! r) = UseSkillMsg user_pos sn tg"
    and f: "uuid c \<notin> set (responded_entities (memory q ! r))"
  shows "position c \<noteq> user_pos \<Longrightarrow> msg_handler lt c q = (Returned False, c, q)"
    and "position c = user_pos \<Longrightarrow> tg = [] \<Longrightarrow>
           \<exists>heap'. mset heap' = mset rest \<and>
             msg_handler lt c q = (Raised IndexError, c, q\<lparr>queue := heap'\<rparr>)"
    and "position c = user_pos \<Longrightarrow> tg = t # ts \<Longrightarrow>
           \<exists>heap'. mset heap' = mset rest \<and>
             msg_handler lt c q =
               (Returned True, c,
                put lt (q\<lparr>queue := heap'\<rparr>)
                  (new_DealDamageMsg (player_id c) [(fst t, snd t, ElementType_NONE, 2)]
                     ElementalReactionType_NONE))"
proof -
  obtain heap' where g: "get lt q = Some (r, q\<lparr>queue := heap'\<rparr>)" and m: "mset heap' = mset rest"
    using get_Cons[OF q] by blast
  show "position c \<noteq> user_pos \<Longrightarrow> msg_handler lt c q = (Returned False, c, q)"
    using f by (auto simp add: msg_handler_def q b Let_def)
  show "position c = user_pos \<Longrightarrow> tg = [] \<Longrightarrow>
           \<exists>heap'. mset heap' = mset rest \<and>
             msg_handler lt c q = (Raised IndexError, c, q\<lparr>queue := heap'\<rparr>)"
    using f m by (auto simp add: msg_handler_def q b Let_def g)
  show "position c = user_pos \<Longrightarrow> tg = t # ts \<Longrightarrow>
           \<exists>heap'. mset heap' = mset rest \<and>
             msg_handler lt c q =
               (Returned True, c,
                put lt (q\<lparr>queue := heap'\<rparr>)
                  (new_DealDamageMsg (player_id c) [(fst t, snd t, ElementType_NONE, 2)]
                     ElementalReactionType_NONE))"
    using f m by (cases t) (auto simp add: msg_handler_def q b Let_def g)
qed

lemma msg_handler_change:
  assumes q: "queue q = r # rest"
    and b: "body (memory q ! r) = ChangeCharacterMsg (P, X)"
    and f: "uuid c \<notin> set (responded_entities (memory q ! r))"
  shows "msg_handler lt c q =
     (if player_id c = P \<and> (position c = X \<or> active c)
      then (Returned True, c\<lparr>active := (position c = X)\<rparr>, append_responded q r (uuid c))
      else (Returned False, c, q))"
  using f by (auto simp add: msg_handler_def q b Let_def)

lemma append_responded_simps:
  "queue (append_responded q r u) = queue q"
  "length (memory (append_responded q r u)) = length (memory q)"
  "body (memory (append_responded q r u) ! k) = body (memory q ! k)"
  "set (responded_entities (memory (append_responded q r u) ! k)) \<subseteq>
     insert u (set (responded_entities (memory q ! k)))"
proof -
  show "queue (append_responded q r u) = queue q"
    "length (memory (append_responded q r u)) = length (memory q)"
    by (simp_all add: append_responded_def list_update_beyond)
  show "body (memory (append_responded q r u) ! k) = body (memory q ! k)"
    by (cases "r < length (memory q)"; cases "k = r") (simp_all add: append_responded_def list_update_beyond)
  show "set (responded_entities (memory (append_responded q r u) ! k)) \<subseteq>
     insert u (set (responded_entities (memory q ! k)))"
    by (cases "r < length (memory q)"; cases "k = r")
       (auto simp add: append_responded_def list_update_beyond)
qed



lemma present_to_all_change:
  assumes "queue q = r # rest"
    and "body (memory q ! r) = ChangeCharacterMsg (P, X)"
    and "distinct (map uuid cs)"
    and "\<forall>c\<in>set cs. uuid c \<notin> set (responded_entities (memory q ! r))"
  shows "\<exists>q'. present_to_all lt cs q =
           (map (\<lambda>c. Returned (player_id c = P \<and> (position c = X \<or> active c))) cs,
            map (\<lambda>c. if player_id c = P then c\<lparr>active := (position c = X)\<rparr> else c) cs,
            q') \<and> queue q' = queue q \<and> length (memory q') = length (memory q)"
  using assms
proof (induction cs arbitrary: q)
  case Nil
  then show ?case by simp
next
  case (Cons c cs)
  have f: "uuid c \<notin> set (responded_entities (memory q ! r))" using Cons.prems(4) by simp
  note mh = msg_handler_change[OF Cons.prems(1,2) f, of lt]
  let ?outs = "map (\<lambda>c. Returned (player_id c = P \<and> (position c = X \<or> active c))) cs"
  let ?cs' = "map (\<lambda>c. if player_id c = P then c\<lparr>active := (position c = X)\<rparr> else c) cs"
  have d1: "distinct (map uuid cs)" using Cons.prems(3) by simp
  show ?case
  proof (cases "player_id c = P \<and> (position c = X \<or> active c)")
    case True
    let ?q1 = "append_responded q r (uuid c)"
    have mh1: "msg_handler lt c q = (Returned True, c\<lparr>active := (position c = X)\<rparr>, ?q1)"
      unfolding mh if_P[OF True] ..
    have q1: "queue ?q1 = r # rest" using Cons.prems(1) by (simp add: append_responded_simps)
    have b1: "body (memory ?q1 ! r) = ChangeCharacterMsg (P, X)"
      using Cons.prems(2) by (simp add: append_responded_simps)
    have f1: "\<forall>c'\<in>set cs. uuid c' \<notin> set (responded_entities (memory ?q1 ! r))"
    proof
      fix c' assume c': "c' \<in> set cs"
      then have "uuid c' \<in> uuid ` set cs" by (rule imageI)
      moreover have "uuid c \<notin> uuid ` set cs" using Cons.prems(3) by simp
      ultimately have "uuid c' \<noteq> uuid c" by metis
      moreover have "uuid c' \<notin> set (responded_entities (memory q ! r))"
        using Cons.prems(4) c' by simp
      ultimately show "uuid c' \<notin> set (responded_entities (memory ?q1 ! r))"
        using append_responded_simps(4)[of q r "uuid c" r] by blast
    qed
    from Cons.IH[OF q1 b1 d1 f1] obtain q' where
      p: "present_to_all lt cs ?q1 = (?outs, ?cs', q')"
      and q': "queue q' = queue ?q1" "length (memory q') = length (memory ?q1)"
      by blast
    have "present_to_all lt (c # cs) q =
            (Returned True # ?outs, c\<lparr>active := (position c = X)\<rparr> # ?cs', q')"
      by (simp only: present_to_all.simps mh1 p prod.case outcome.case)
    moreover have "queue q' = queue q" "length (memory q') = length (memory q)"
      using q' by (simp_all add: append_responded_simps)
    ultimately show ?thesis using True by simp
  next
    case False
    have mh1: "msg_handler lt c q = (Returned False, c, q)"
      unfolding mh if_not_P[OF False] ..
    have f1: "\<forall>c'\<in>set cs. uuid c' \<notin> set (responded_entities (memory q ! r))"
      using Cons.prems(4) by simp
    from Cons.IH[OF Cons.prems(1,2) d1 f1] obtain q' where
      p: "present_to_all lt cs q = (?outs, ?cs', q')"
      and q': "queue q' = queue q" "length (memory q') = length (memory q)"
      by blast
    have "present_to_all lt (c # cs) q = (Returned False # ?outs, c # ?cs', q')"
      by (simp only: present_to_all.simps mh1 p prod.case outcome.case)
    moreover have "(if player_id c = P then c\<lparr>active := (position c = X)\<rparr> else c) = c"
      using False by auto
    ultimately show ?thesis using False q' by simp
  qed
qed


section \<open>The damage loop\<close>

lemma body_miss:
  "\<not> (player_id self = p \<and> position self = pos) \<Longrightarrow>
     deal_damage_body lt r (p, pos, e, d) (u, self, q) = (u, self, q)"
  by (auto simp: deal_damage_body_def)

lemma body_dead:
  "player_id self = p \<Longrightarrow> position self = pos \<Longrightarrow>
   health_point self - min (health_point self) d = 0 \<Longrightarrow>
     deal_damage_body lt r (p, pos, e, d) (u, self, q) =
       (True, self\<lparr>health_point := 0, alive := False\<rparr>,
        append_responded (put lt q (new_CharacterDiedMsg p (p, pos))) r (uuid self))"
  by (simp add: deal_damage_body_def Let_def)

lemma body_hurt:
  "player_id self = p \<Longrightarrow> position self = pos \<Longrightarrow>
   health_point self - min (health_point self) d \<noteq> 0 \<Longrightarrow>
     deal_damage_body lt r (p, pos, e, d) (u, self, q) =
       (True, self\<lparr>health_point := health_point self - min (health_point self) d\<rparr>,
        append_responded q r (uuid self))"
  by (simp add: deal_damage_body_def Let_def)

lemma body_cases:
  obtains (miss) "\<not> (player_id self = fst t \<and> position self = fst (snd t))"
      "deal_damage_body lt r t (u, self, q) = (u, self, q)"
  | (dead) "player_id self = fst t" "position self = fst (snd t)"
      "health_point self - min (health_point self) (snd (snd (snd t))) = 0"
      "deal_damage_body lt r t (u, self, q) =
       (True, self\<lparr>health_point := 0, alive := False\<rparr>,
        append_responded (put lt q (new_CharacterDiedMsg (player_id self) (player_id self, position self))) r (uuid self))"
  | (hurt) "player_id self = fst t" "position self = fst (snd t)"
      "health_point self - min (health_point self) (snd (snd (snd t))) \<noteq> 0"
      "deal_damage_body lt r t (u, self, q) =
       (True, self\<lparr>health_point := health_point self - min (health_point self) (snd (snd (snd t)))\<rparr>,
        append_responded q r (uuid self))"
proof -
  obtain p pos e d where t: "t = (p, pos, e, d)" by (cases t) auto
  consider "\<not> (player_id self = p \<and> position self = pos)"
    | "player_id self = p" "position self = pos" "health_point self - min (health_point self) d = 0"
    | "player_id self = p" "position self = pos" "health_point self - min (health_point self) d \<noteq> 0"
    by blast
  then show thesis
  proof cases
    case 1
    then show ?thesis using miss body_miss[OF 1] by (simp add: t)
  next
    case 2
    then show ?thesis using dead body_dead[OF 2] by (simp add: t)
  next
    case 3
    then show ?thesis using hurt body_hurt[OF 3] by (simp add: t)
  qed
qed

lemma deal_damage_loop_frame:
  "deal_damage_loop lt r tgts (u, self, q) = (u', self', q') \<Longrightarrow>
     self'\<lparr>health_point := x, alive := y\<rparr> = self\<lparr>health_point := x, alive := y\<rparr>"
proof (induction tgts arbitrary: u self q)
  case Nil
  then show ?case by simp
next
  case (Cons t tgts)
  show ?case
  proof (cases rule: body_cases[of self t lt r u q])
    case miss
    then show ?thesis using Cons.prems Cons.IH[of u self q] by simp
  next
    case dead
    then show ?thesis using Cons.prems Cons.IH[of True "self\<lparr>health_point := 0, alive := False\<rparr>"] by simp
  next
    case hurt
    then show ?thesis using Cons.prems
        Cons.IH[of True "self\<lparr>health_point := health_point self - min (health_point self) (snd (snd (snd t)))\<rparr>"] by simp
  qed
qed

lemma deal_damage_loop_ids:
  assumes "deal_damage_loop lt r tgts (u, self, q) = (u', self', q')"
  shows "player_id self' = player_id self" "position self' = position self" "uuid self' = uuid self"
    "active self' = active self"
proof -
  have e: "self'\<lparr>health_point := 0, alive := True\<rparr> = self\<lparr>health_point := 0, alive := True\<rparr>"
    using assms by (rule deal_damage_loop_frame)
  show "player_id self' = player_id self" using arg_cong[OF e, of player_id] by simp
  show "position self' = position self" using arg_cong[OF e, of position] by simp
  show "uuid self' = uuid self" using arg_cong[OF e, of uuid] by simp
  show "active self' = active self" using arg_cong[OF e, of active] by simp
qed

lemma addressed_Cons:
  "addressed self (t # tgts) =
     (if player_id self = fst t \<and> position self = fst (snd t)
      then snd (snd (snd t)) # addressed self tgts else addressed self tgts)"
  by (cases t) (auto simp: addressed_def)

lemma addressed_cong:
  "player_id a = player_id b \<Longrightarrow> position a = position b \<Longrightarrow> addressed a tgts = addressed b tgts"
  by (simp add: addressed_def)

lemma deal_damage_loop_health:
  "deal_damage_loop lt r tgts (u, self, q) = (u', self', q') \<Longrightarrow>
   0 \<le> health_point self \<Longrightarrow> \<forall>d\<in>set (addressed self tgts). 0 \<le> d \<Longrightarrow>
     health_point self' = max 0 (health_point self - sum_list (addressed self tgts)) \<and>
     (alive self' \<longleftrightarrow> alive self \<and> (addressed self tgts = [] \<or> 0 < health_point self')) \<and>
     (u' \<longleftrightarrow> u \<or> addressed self tgts \<noteq> [])"
proof (induction tgts arbitrary: u self q)
  case Nil
  then show ?case by (simp add: addressed_def)
next
  case (Cons t tgts)
  let ?d = "snd (snd (snd t))"
  show ?case
  proof (cases rule: body_cases[of self t lt r u q])
    case miss
    then have a: "addressed self (t # tgts) = addressed self tgts" by (simp add: addressed_Cons)
    have "deal_damage_loop lt r tgts (u, self, q) = (u', self', q')"
      using Cons.prems(1) miss by simp
    from Cons.IH[OF this] Cons.prems(2,3) show ?thesis by (simp add: a)
  next
    case dead
    then have a: "addressed self (t # tgts) = ?d # addressed self tgts" by (simp add: addressed_Cons)
    let ?s = "self\<lparr>health_point := 0, alive := False\<rparr>"
    have as: "addressed ?s tgts = addressed self tgts" by (rule addressed_cong) simp_all
    have d: "0 \<le> ?d" and rest: "\<forall>d\<in>set (addressed self tgts). 0 \<le> d"
      using Cons.prems(3) by (simp_all add: a)
    have S: "0 \<le> sum_list (addressed self tgts)" using rest by (simp add: sum_list_nonneg)
    have hd: "health_point self \<le> ?d" using dead(3) by (simp add: min_def split: if_splits)
    have "deal_damage_loop lt r tgts (True, ?s, append_responded (put lt q (new_CharacterDiedMsg (player_id self) (player_id self, position self))) r (uuid self)) = (u', self', q')"
      using Cons.prems(1) dead by simp
    from Cons.IH[OF this] rest have
      "health_point self' = max 0 (0 - sum_list (addressed self tgts))" "\<not> alive self'" "u'"
      by (simp_all add: as)
    then show ?thesis using S hd by (simp add: a)
  next
    case hurt
    then have a: "addressed self (t # tgts) = ?d # addressed self tgts" by (simp add: addressed_Cons)
    let ?s = "self\<lparr>health_point := health_point self - min (health_point self) ?d\<rparr>"
    have as: "\<And>x. addressed (self\<lparr>health_point := x\<rparr>) tgts = addressed self tgts"
      by (rule addressed_cong) simp_all
    have d: "0 \<le> ?d" and rest: "\<forall>d\<in>set (addressed self tgts). 0 \<le> d"
      using Cons.prems(3) by (simp_all add: a)
    have S: "0 \<le> sum_list (addressed self tgts)" using rest by (simp add: sum_list_nonneg)
    have hd: "?d < health_point self" "health_point ?s = health_point self - ?d"
      using hurt(3) by (simp_all add: min_def split: if_splits)
    have "deal_damage_loop lt r tgts (True, ?s, append_responded q r (uuid self)) = (u', self', q')"
      using Cons.prems(1) hurt by simp
    from Cons.IH[OF this] rest hd have
      "health_point self' = max 0 (health_point self - ?d - sum_list (addressed self tgts))"
      "alive self' \<longleftrightarrow> alive self \<and> (addressed self tgts = [] \<or> 0 < health_point self')" "u'"
      by (simp_all add: as)
    then show ?thesis using S hd d by (auto simp add: a)
  qed
qed


lemma msg_handler_damage:
  assumes "fresh_damage_event self q"
  shows "msg_handler lt self q =
     (case deal_damage_loop lt (queue q ! 0) (damage_targets (head_message q)) (False, self, q) of
        (u, s, q') \<Rightarrow> (Returned u, s, q'))"
proof -
  obtain r rest where q: "queue q = r # rest"
    using assms by (cases "queue q") (auto simp: fresh_damage_event_def)
  obtain tgts reaction where b: "body (memory q ! r) = DealDamageMsg tgts reaction"
    using assms q by (auto simp: fresh_damage_event_def is_DealDamageMsg_def head_message_def split: msg_body.splits)
  have f: "uuid self \<notin> set (responded_entities (memory q ! r))"
    using assms q by (simp add: fresh_damage_event_def head_message_def)
  show ?thesis
    using f by (simp add: msg_handler_def q b Let_def damage_targets_def head_message_def)
qed

lemma addressed_amounts_cong:
  "player_id a = player_id b \<Longrightarrow> position a = position b \<Longrightarrow> addressed_amounts a q = addressed_amounts b q"
  by (simp add: addressed_amounts_def addressed_def)

lemma fresh_cong: "uuid a = uuid b \<Longrightarrow> fresh_damage_event a q = fresh_damage_event b q"
  by (simp add: fresh_damage_event_def)

lemma handle_events_damage:
  "\<forall>q\<in>set qs. fresh_damage_event self q \<and> (\<forall>d\<in>set (addressed_amounts self q). 0 \<le> d) \<Longrightarrow>
   0 \<le> health_point self \<Longrightarrow> (alive self \<longleftrightarrow> 0 < health_point self) \<Longrightarrow>
   handle_events lt self qs = (self', rs) \<Longrightarrow>
     health_point self' = max 0 (health_point self - sum_list (map (\<lambda>q. sum_list (addressed_amounts self q)) qs)) \<and>
     (alive self' \<longleftrightarrow> 0 < health_point self') \<and>
     map fst rs = map (\<lambda>q. Returned (addressed_amounts self q \<noteq> [])) qs \<and>
     player_id self' = player_id self \<and> position self' = position self \<and> uuid self' = uuid self"
proof (induction qs arbitrary: self self' rs)
  case Nil
  then show ?case by auto
next
  case (Cons q qs)
  have fr: "fresh_damage_event self q" and nn: "\<forall>d\<in>set (addressed_amounts self q). 0 \<le> d"
    using Cons.prems(1) by simp_all
  obtain u s q' where loop:
    "deal_damage_loop lt (queue q ! 0) (damage_targets (head_message q)) (False, self, q) = (u, s, q')"
    by (metis prod_cases3)
  have mh: "msg_handler lt self q = (Returned u, s, q')"
    by (simp add: msg_handler_damage[OF fr] loop)
  note ids = deal_damage_loop_ids[OF loop]
  from deal_damage_loop_health[OF loop Cons.prems(2)] nn
  have h: "health_point s = max 0 (health_point self - sum_list (addressed_amounts self q))"
    and al: "alive s \<longleftrightarrow> alive self \<and> (addressed_amounts self q = [] \<or> 0 < health_point s)"
    and u: "u \<longleftrightarrow> addressed_amounts self q \<noteq> []"
    by (simp_all add: addressed_amounts_def)
  have S: "0 \<le> sum_list (addressed_amounts self q)" using nn by (simp add: sum_list_nonneg)
  have inv: "0 \<le> health_point s" "alive s \<longleftrightarrow> 0 < health_point s"
    using h al S Cons.prems(2,3) by auto
  have am: "\<And>x. addressed_amounts s x = addressed_amounts self x" using ids by (intro addressed_amounts_cong) simp_all
  have pre: "\<forall>x\<in>set qs. fresh_damage_event s x \<and> (\<forall>d\<in>set (addressed_amounts s x). 0 \<le> d)"
    using Cons.prems(1) ids fresh_cong[of s self] by (simp add: am)
  obtain s2 rs2 where rest: "handle_events lt s qs = (s2, rs2)" by force
  have res: "self' = s2" "rs = (Returned u, q') # rs2"
    using Cons.prems(4) by (simp_all add: mh rest)
  have T: "0 \<le> sum_list (map (\<lambda>q. sum_list (addressed_amounts self q)) qs)"
    using Cons.prems(1) by (intro sum_list_nonneg) (auto intro: sum_list_nonneg)
  from Cons.IH[OF pre inv rest] show ?case
    using h S T u ids by (auto simp: res am)
qed


section \<open>Further facts about the handler\<close>

lemma contents_after_put:
  assumes wf: "wf_queue q" and q: "queue q = r # rest" and m: "mset heap' = mset rest"
  shows "mset (contents (put lt (q\<lparr>queue := heap'\<rparr>) msg)) =
           add_mset msg (mset (contents q) - {#head_message q#})"
proof -
  let ?n = "length (memory q)"
  let ?f = "\<lambda>r. memory q ! r"
  let ?f' = "\<lambda>r. (memory q @ [msg]) ! r"
  have lt: "\<forall>x\<in>set rest. x < ?n" using wf q by (simp add: wf_queue_def list_all_iff)
  have "mset (contents (put lt (q\<lparr>queue := heap'\<rparr>) msg)) =
          image_mset ?f' (mset (queue (put lt (q\<lparr>queue := heap'\<rparr>) msg)))"
    by (simp add: contents_def memory_put)
  also have "\<dots> = image_mset ?f' (add_mset ?n (mset rest))"
    using queue_put[of lt "q\<lparr>queue := heap'\<rparr>" msg] m by simp
  also have "\<dots> = add_mset msg (image_mset ?f' (mset rest))" by simp
  also have "image_mset ?f' (mset rest) = image_mset ?f (mset rest)"
    using lt by (intro image_mset_cong) (simp add: nth_append)
  also have "image_mset ?f (mset rest) = mset (contents q) - {#head_message q#}"
    by (simp add: contents_def head_message_def q)
  finally show ?thesis .
qed

lemma msg_handler_change_queue:
  assumes "queue q \<noteq> []" and "is_ChangeCharacterMsg (head_message q)"
  shows "queue (snd (snd (msg_handler lt c q))) = queue q"
proof -
  obtain r rest where q: "queue q = r # rest" using assms(1) by (cases "queue q") auto
  obtain tgt where b: "body (memory q ! r) = ChangeCharacterMsg tgt"
    using assms(2) q by (auto simp: is_ChangeCharacterMsg_def head_message_def split: msg_body.splits)
  show ?thesis
  proof (cases "uuid c \<in> set (responded_entities (memory q ! r))")
    case True
    then show ?thesis by (simp add: msg_handler_def q Let_def)
  next
    case False
    show ?thesis
      using msg_handler_change[OF q _ False, of "fst tgt" "snd tgt" lt] b
      by (simp add: append_responded_simps)
  qed
qed

lemma msg_handler_active:
  assumes "\<not> (queue q \<noteq> [] \<and> is_ChangeCharacterMsg (head_message q))"
  shows "active (fst (snd (msg_handler lt c q))) = active c"
proof (cases "queue q")
  case Nil
  then show ?thesis by (simp add: msg_handler_def)
next
  case (Cons r rest)
  then have nc: "\<not> is_ChangeCharacterMsg (memory q ! r)"
    using assms by (simp add: head_message_def)
  show ?thesis
  proof (cases "uuid c \<in> set (responded_entities (memory q ! r))")
    case True
    then show ?thesis by (simp add: msg_handler_def Cons Let_def)
  next
    case False
    show ?thesis
    proof (cases "body (memory q ! r)")
      case (UseSkillMsg user_pos sn tg)
      show ?thesis
      proof (cases "position c = user_pos")
        case p: True
        show ?thesis
        proof (cases tg)
          case Nil
          from msg_handler_use_skill(2)[OF Cons UseSkillMsg False p Nil, of lt]
          show ?thesis by auto
        next
          case (Cons t ts)
          from msg_handler_use_skill(3)[OF \<open>queue q = r # rest\<close> UseSkillMsg False p Cons, of lt]
          show ?thesis by auto
        qed
      next
        case p: False
        from msg_handler_use_skill(1)[OF Cons UseSkillMsg False p, of lt]
        show ?thesis by simp
      qed
    next
      case (ChangeCharacterMsg tgt)
      then show ?thesis using nc by (simp add: is_ChangeCharacterMsg_def)
    next
      case (DealDamageMsg tgts reaction)
      then have fr: "fresh_damage_event c q"
        using False Cons by (simp add: fresh_damage_event_def head_message_def is_DealDamageMsg_def)
      obtain u s q' where l:
        "deal_damage_loop lt (queue q ! 0) (damage_targets (head_message q)) (False, c, q) = (u, s, q')"
        by (metis prod_cases3)
      show ?thesis
        using deal_damage_loop_ids(4)[OF l] by (simp add: msg_handler_damage[OF fr] l)
    next
      case (CharacterDiedMsg tgt)
      then show ?thesis using False by (simp add: msg_handler_def Cons Let_def)
    next
      case (OtherMsg k)
      then show ?thesis using False by (simp add: msg_handler_def Cons Let_def)
    qed
  qed
qed

lemma active_count_map_other:
  "P' \<noteq> P \<Longrightarrow>
   active_count P' (map (\<lambda>c. if player_id c = P then c\<lparr>active := f c\<rparr> else c) cs) = active_count P' cs"
  by (induction cs) (auto simp: active_count_def)

lemma active_count_map_same:
  "active_count P (map (\<lambda>c. if player_id c = P then c\<lparr>active := (position c = X)\<rparr> else c) cs)
     = length (filter (\<lambda>c. player_id c = P \<and> position c = X) cs)"
  by (induction cs) (auto simp: active_count_def)

lemma addressed_take_subset: "set (addressed self (take k tgts)) \<subseteq> set (addressed self tgts)"
proof -
  have "set (filter P (take k tgts)) \<subseteq> set (filter P tgts)" for P :: "PlayerID \<times> CharPos \<times> ElementType \<times> int \<Rightarrow> bool"
    using set_take_subset[of k tgts] by auto
  then show ?thesis unfolding addressed_def set_map by (rule image_mono)
qed

lemma handle_events_take_inv:
  assumes "0 < health_point self" and "alive self"
    and "\<forall>q\<in>set qs. fresh_damage_event self q \<and> (\<forall>d\<in>set (addressed_amounts self q). 0 \<le> d)"
  shows "0 \<le> health_point (fst (handle_events lt self (take n qs)))"
    and "player_id (fst (handle_events lt self (take n qs))) = player_id self"
    and "position (fst (handle_events lt self (take n qs))) = position self"
proof -
  have pre: "\<forall>q\<in>set (take n qs). fresh_damage_event self q \<and> (\<forall>d\<in>set (addressed_amounts self q). 0 \<le> d)"
    using assms(3) set_take_subset[of n qs] by blast
  obtain s rs where h: "handle_events lt self (take n qs) = (s, rs)" by force
  from handle_events_damage[OF pre _ _ h] assms(1,2)
  show "0 \<le> health_point (fst (handle_events lt self (take n qs)))"
    "player_id (fst (handle_events lt self (take n qs))) = player_id self"
    "position (fst (handle_events lt self (take n qs))) = position self"
    by (simp_all add: h)
qed

section \<open>Lists of skills\<close>




lemma init_consistent:
  "CharacterEntity_init n2i cards u n pid pos = Inr self \<Longrightarrow> skills_consistent self"
  by (auto simp: CharacterEntity_init_def skills_consistent_def split: option.splits)


section \<open>A message already responded to\<close>

text \<open>
  C8. For every message at the head of the queue whose \<^verbatim>\<open>responded_entities\<close> already
  holds this entity's id, \<^verbatim>\<open>msg_handler\<close> returns \<^verbatim>\<open>False\<close> and leaves the whole
  state of the entity and the message queue (the heap and every message object) as they
  were.
\<close>

theorem already_responded_no_update:
  assumes "queue q \<noteq> []"
    and "uuid self \<in> set (responded_entities (head_message q))"
  shows "msg_handler lt self q = (Returned False, self, q)"
  using assms
  by (cases "queue q") (simp_all add: msg_handler_def head_message_def Let_def)

theorem already_responded_no_update_witness:
  "msg_handler example_lt (example_character 7 1 0 True True 10)
     (single_queue (message 2 [7]
        (DealDamageMsg [(1, 0, ElementType_NONE, 5)] ElementalReactionType_NONE)))
   = (Returned False, example_character 7 1 0 True True 10,
      single_queue (message 2 [7]
        (DealDamageMsg [(1, 0, ElementType_NONE, 5)] ElementalReactionType_NONE)))"
  using already_responded_no_update
    [of "single_queue (message 2 [7]
           (DealDamageMsg [(1, 0, ElementType_NONE, 5)] ElementalReactionType_NONE))"
        "example_character 7 1 0 True True 10" example_lt]
  by (simp add: single_queue_def head_message_def message_def example_character_def)

section \<open>Skill lookup\<close>




text \<open>
  C10. Called with a skill type only (no id, no name), \<^verbatim>\<open>get_raw_skill\<close> passes its
  last assertion and falls off the end of the function: it returns \<^verbatim>\<open>None\<close>, for
  every character and every skill type, instead of raising.
\<close>

theorem get_raw_skill_by_type_returns_None:
  "get_raw_skill self None None (Some skill_type) = Inr None"
  by (simp add: get_raw_skill_def)

section \<open>Damage\<close>

text \<open>
  C2. A character with \<open>health_point > 0\<close> and \<open>alive = True\<close> handles a sequence of
  queues, each with a \<^verbatim>\<open>DealDamageMsg\<close> at its head that the character has not
  responded to, and all amounts of the tuples addressed to the character are
  non-negative. Then every call returns; at the end \<open>health_point\<close> is
  \<open>max 0 (initial health_point - sum of the addressed amounts)\<close> and
  \<open>alive = (health_point > 0)\<close>; \<open>health_point\<close> is non-negative after every event
  of the sequence and, within each event, after every tuple of its loop.
\<close>

theorem damage_events_health:
  assumes "0 < health_point self" and "alive self"
    and "\<forall>q\<in>set qs. fresh_damage_event self q \<and> (\<forall>d\<in>set (addressed_amounts self q). 0 \<le> d)"
  shows "health_point (fst (handle_events lt self qs)) =
           max 0 (health_point self - sum_list (map (\<lambda>q. sum_list (addressed_amounts self q)) qs))
       \<and> (alive (fst (handle_events lt self qs)) \<longleftrightarrow> 0 < health_point (fst (handle_events lt self qs)))
       \<and> map fst (snd (handle_events lt self qs)) = map (\<lambda>q. Returned (addressed_amounts self q \<noteq> [])) qs
       \<and> (\<forall>n\<le>length qs. 0 \<le> health_point (fst (handle_events lt self (take n qs))))
       \<and> (\<forall>n<length qs. \<forall>k.
             0 \<le> health_point (fst (snd (deal_damage_loop lt (queue (qs ! n) ! 0)
                    (take k (damage_targets (head_message (qs ! n))))
                    (False, fst (handle_events lt self (take n qs)), qs ! n)))))"
proof (intro conjI allI impI)
  obtain s rs where h: "handle_events lt self qs = (s, rs)" by force
  from handle_events_damage[OF assms(3) _ _ h] assms(1,2)
  show "health_point (fst (handle_events lt self qs)) =
           max 0 (health_point self - sum_list (map (\<lambda>q. sum_list (addressed_amounts self q)) qs))"
    "alive (fst (handle_events lt self qs)) \<longleftrightarrow> 0 < health_point (fst (handle_events lt self qs))"
    "map fst (snd (handle_events lt self qs)) = map (\<lambda>q. Returned (addressed_amounts self q \<noteq> [])) qs"
    by (simp_all add: h)
next
  fix n
  show "0 \<le> health_point (fst (handle_events lt self (take n qs)))"
    using assms by (rule handle_events_take_inv)
next
  fix n k assume n: "n < length qs"
  let ?c = "fst (handle_events lt self (take n qs))"
  let ?tg = "damage_targets (head_message (qs ! n))"
  note inv = handle_events_take_inv[OF assms, of lt n]
  have "qs ! n \<in> set qs" using n by simp
  then have "\<forall>d\<in>set (addressed_amounts self (qs ! n)). 0 \<le> d" using assms(3) by blast
  then have nn: "\<forall>d\<in>set (addressed ?c (take k ?tg)). 0 \<le> d"
    using addressed_take_subset[of ?c k ?tg] addressed_cong[OF inv(2,3), of ?tg]
    by (auto simp: addressed_amounts_def)
  obtain u s q' where l: "deal_damage_loop lt (queue (qs ! n) ! 0) (take k ?tg) (False, ?c, qs ! n) = (u, s, q')"
    by (metis prod_cases3)
  from deal_damage_loop_health[OF l inv(1) nn]
  show "0 \<le> health_point (fst (snd (deal_damage_loop lt (queue (qs ! n) ! 0) (take k ?tg) (False, ?c, qs ! n))))"
    by (simp add: l)
qed

theorem damage_events_health_witness:
  "health_point (fst (handle_events example_lt (example_character 7 1 0 True True 10)
      [damage_event [2], damage_event [2]])) = 6
   \<and> alive (fst (handle_events example_lt (example_character 7 1 0 True True 10)
      [damage_event [2], damage_event [2]]))
   \<and> health_point (fst (handle_events example_lt (example_character 7 1 0 True True 2)
      [damage_event [5]])) = 0
   \<and> \<not> alive (fst (handle_events example_lt (example_character 7 1 0 True True 2)
      [damage_event [5]]))"
  using damage_events_health[of "example_character 7 1 0 True True 10" "[damage_event [2], damage_event [2]]" example_lt]
    damage_events_health[of "example_character 7 1 0 True True 2" "[damage_event [5]]" example_lt]
  by (simp add: example_character_def damage_event_def single_queue_def message_def
        fresh_damage_event_def is_DealDamageMsg_def head_message_def addressed_amounts_def
        addressed_def damage_targets_def)

text \<open>
  C1. A dead character (\<open>alive = False\<close>, \<open>health_point = 0\<close>) that handles a fresh
  \<^verbatim>\<open>DealDamageMsg\<close> addressed to it should keep \<open>health_point = 0\<close> and enqueue no
  further \<^verbatim>\<open>CharacterDiedMsg\<close>, so that one death gives at most one such message. The
  handler tests \<open>health_point = 0\<close> after every addressed tuple without regard to
  \<open>alive\<close>: the dead character at position 0 of player 1, dealt 5, keeps
  \<open>health_point = 0\<close> but a \<^verbatim>\<open>CharacterDiedMsg\<close> is put into the queue again; and a
  character with \<open>health_point = 2\<close> that one event deals 5 twice puts two of them.
\<close>

theorem dead_character_damage_enqueues_died:
  "msg_handler example_lt (example_character 7 1 0 True False 0) (damage_event [5])
     = (Returned True, example_character 7 1 0 True False 0,
        \<lparr>queue = [1, 0],
         memory = [message 2 [7] (DealDamageMsg [(1, 0, ElementType_NONE, 5)] ElementalReactionType_NONE),
                   new_CharacterDiedMsg 1 (1, 0)]\<rparr>)
   \<and> map body (memory (snd (snd (msg_handler example_lt (example_character 7 1 0 True True 2)
        (damage_event [5, 5])))))
     = [DealDamageMsg [(1, 0, ElementType_NONE, 5), (1, 0, ElementType_NONE, 5)] ElementalReactionType_NONE,
        CharacterDiedMsg (1, 0), CharacterDiedMsg (1, 0)]"
  by (simp add: msg_handler_def damage_event_def single_queue_def message_def example_character_def
      Let_def deal_damage_body_def put_def append_responded_def heappush_def siftdown_def
      siftdown_loop.simps ref_lt_def example_lt_def example_rank_def new_CharacterDiedMsg_def)

section \<open>Change of the active character\<close>

text \<open>
  C3. A \<^verbatim>\<open>ChangeCharacterMsg\<close> for player \<open>P\<close> and position \<open>X\<close> is at the head of
  the queue, and the characters of a list, with distinct ids none of which is among the
  message's \<^verbatim>\<open>responded_entities\<close>, handle it one after the other in any order. After
  that a character of \<open>P\<close> is active exactly when it stands at \<open>X\<close> (so every
  character of \<open>P\<close> that was active elsewhere is not active any more), the characters
  of the other players are unchanged, every call returns, and the list \<open>queue\<close> is
  the same: the event is not removed, neither by the whole pass nor by the call of any
  single character \<open>c\<close>.
\<close>

theorem change_character_pass:
  assumes "queue q \<noteq> []"
    and "body (head_message q) = ChangeCharacterMsg (P, X)"
    and "distinct (map uuid cs)"
    and "\<forall>c\<in>set cs. uuid c \<notin> set (responded_entities (head_message q))"
  shows "fst (snd (present_to_all lt cs q)) =
           map (\<lambda>c. if player_id c = P then c\<lparr>active := (position c = X)\<rparr> else c) cs
       \<and> (\<forall>i<length cs. player_id (cs ! i) = P \<longrightarrow>
             (active (fst (snd (present_to_all lt cs q)) ! i) \<longleftrightarrow> position (cs ! i) = X))
       \<and> (\<forall>i<length cs. player_id (cs ! i) \<noteq> P \<longrightarrow>
             fst (snd (present_to_all lt cs q)) ! i = cs ! i)
       \<and> fst (present_to_all lt cs q) =
           map (\<lambda>c. Returned (player_id c = P \<and> (position c = X \<or> active c))) cs
       \<and> queue (snd (snd (present_to_all lt cs q))) = queue q
       \<and> queue (snd (snd (msg_handler lt c q))) = queue q"
proof -
  obtain r rest where q: "queue q = r # rest" using assms(1) by (cases "queue q") auto
  have b: "body (memory q ! r) = ChangeCharacterMsg (P, X)"
    and f: "\<forall>c\<in>set cs. uuid c \<notin> set (responded_entities (memory q ! r))"
    using assms(2,4) q by (simp_all add: head_message_def)
  from present_to_all_change[OF q b assms(3) f, of lt] obtain q' where
    p: "present_to_all lt cs q =
           (map (\<lambda>c. Returned (player_id c = P \<and> (position c = X \<or> active c))) cs,
            map (\<lambda>c. if player_id c = P then c\<lparr>active := (position c = X)\<rparr> else c) cs,
            q')" and q': "queue q' = queue q"
    by blast
  have "is_ChangeCharacterMsg (head_message q)" using assms(2) by (simp add: is_ChangeCharacterMsg_def)
  then have "queue (snd (snd (msg_handler lt c q))) = queue q"
    using assms(1) by (intro msg_handler_change_queue)
  then show ?thesis using q' by (simp add: p)
qed

theorem change_character_pass_witness:
  "map active (fst (snd (present_to_all example_lt
      [example_character 7 1 0 True True 10, example_character 8 1 1 False True 10,
       example_character 9 1 2 False True 10, example_character 10 2 0 True True 10]
      (change_event 1 1)))) = [False, True, False, True]
   \<and> queue (snd (snd (present_to_all example_lt
      [example_character 7 1 0 True True 10, example_character 8 1 1 False True 10,
       example_character 9 1 2 False True 10, example_character 10 2 0 True True 10]
      (change_event 1 1)))) = [0]"
  using change_character_pass[of "change_event 1 1" 1 1
      "[example_character 7 1 0 True True 10, example_character 8 1 1 False True 10,
        example_character 9 1 2 False True 10, example_character 10 2 0 True True 10]" example_lt]
  by (simp add: change_event_def single_queue_def message_def head_message_def example_character_def)

text \<open>
  C6, as the code has it. \<^verbatim>\<open>__init__\<close> leaves every character inactive, so that no
  character of a player is active until a \<^verbatim>\<open>ChangeCharacterMsg\<close> has been handled.
  A call of \<^verbatim>\<open>msg_handler\<close> on anything but a \<^verbatim>\<open>ChangeCharacterMsg\<close> at the head of
  the queue leaves the \<open>active\<close> flag of the character as it was. When all characters
  (distinct ids, none among the \<^verbatim>\<open>responded_entities\<close>) have handled a
  \<^verbatim>\<open>ChangeCharacterMsg\<close> for \<open>(P, X)\<close> and exactly one character of \<open>P\<close> stands at
  \<open>X\<close>, exactly one character of \<open>P\<close> is active and the number of active characters
  of every other player is what it was.
\<close>

theorem one_active_after_complete_pass:
  "(CharacterEntity_init NAME2ID CARDS u n pid pos = Inr c0 \<longrightarrow> \<not> active c0)
   \<and> (\<not> (queue q0 \<noteq> [] \<and> is_ChangeCharacterMsg (head_message q0)) \<longrightarrow>
        active (fst (snd (msg_handler lt c1 q0))) = active c1)
   \<and> (queue q \<noteq> [] \<and> body (head_message q) = ChangeCharacterMsg (P, X) \<and>
       distinct (map uuid cs) \<and>
       (\<forall>c\<in>set cs. uuid c \<notin> set (responded_entities (head_message q))) \<and>
       length (filter (\<lambda>c. player_id c = P \<and> position c = X) cs) = 1 \<longrightarrow>
        active_count P (fst (snd (present_to_all lt cs q))) = 1 \<and>
        (\<forall>P'. P' \<noteq> P \<longrightarrow>
           active_count P' (fst (snd (present_to_all lt cs q))) = active_count P' cs))"
proof (intro conjI impI)
  show "\<not> active c0" if "CharacterEntity_init NAME2ID CARDS u n pid pos = Inr c0"
    using that by (auto simp: CharacterEntity_init_def split: option.splits)
  show "active (fst (snd (msg_handler lt c1 q0))) = active c1"
    if "\<not> (queue q0 \<noteq> [] \<and> is_ChangeCharacterMsg (head_message q0))"
    using that by (rule msg_handler_active)
next
  assume a: "queue q \<noteq> [] \<and> body (head_message q) = ChangeCharacterMsg (P, X) \<and>
       distinct (map uuid cs) \<and>
       (\<forall>c\<in>set cs. uuid c \<notin> set (responded_entities (head_message q))) \<and>
       length (filter (\<lambda>c. player_id c = P \<and> position c = X) cs) = 1"
  then obtain r rest where q: "queue q = r # rest" by (cases "queue q") auto
  have b: "body (memory q ! r) = ChangeCharacterMsg (P, X)"
    and f: "\<forall>c\<in>set cs. uuid c \<notin> set (responded_entities (memory q ! r))"
    and d: "distinct (map uuid cs)"
    using a q by (simp_all add: head_message_def)
  from present_to_all_change[OF q b d f, of lt] obtain q' where
    p: "fst (snd (present_to_all lt cs q)) =
            map (\<lambda>c. if player_id c = P then c\<lparr>active := (position c = X)\<rparr> else c) cs"
    by force
  show "active_count P (fst (snd (present_to_all lt cs q))) = 1"
    using a by (simp add: p active_count_map_same)
  show "\<forall>P'. P' \<noteq> P \<longrightarrow>
           active_count P' (fst (snd (present_to_all lt cs q))) = active_count P' cs"
    by (simp add: p active_count_map_other)
qed

theorem one_active_after_complete_pass_witness:
  "CharacterEntity_init example_NAME2ID example_CARDS 7 ''Example'' 1 0 =
      Inr (example_character 7 1 0 False True 10)
   \<and> \<not> active (example_character 7 1 0 False True 10)
   \<and> active (fst (snd (msg_handler example_lt (example_character 7 1 0 True True 10)
        (damage_event [2]))))
   \<and> active_count 1 (fst (snd (present_to_all example_lt
        [example_character 7 1 0 True True 10, example_character 8 1 1 False True 10,
         example_character 10 2 0 True True 10] (change_event 1 1)))) = 1
   \<and> active_count 2 (fst (snd (present_to_all example_lt
        [example_character 7 1 0 True True 10, example_character 8 1 1 False True 10,
         example_character 10 2 0 True True 10] (change_event 1 1)))) = 1"
proof -
  have i: "CharacterEntity_init example_NAME2ID example_CARDS 7 ''Example'' 1 0 =
      Inr (example_character 7 1 0 False True 10)"
    by (simp add: CharacterEntity_init_def example_NAME2ID_def example_CARDS_def example_character_def
        example_card_def)
  show ?thesis
    using i one_active_after_complete_pass[of example_NAME2ID example_CARDS 7 "''Example''" 1 0
      "example_character 7 1 0 False True 10" "damage_event [2]" example_lt
      "example_character 7 1 0 True True 10" "change_event 1 1" 1 1
      "[example_character 7 1 0 True True 10, example_character 8 1 1 False True 10,
         example_character 10 2 0 True True 10]"]
    by (simp add: change_event_def damage_event_def single_queue_def message_def head_message_def
        example_character_def is_ChangeCharacterMsg_def active_count_def)
qed

text \<open>
  Exactly one active character for each player does not hold at every time: two freshly
  constructed characters of player 1 are both inactive; and when the character at position
  0 is active and the one at position 1 handles a \<^verbatim>\<open>ChangeCharacterMsg\<close> for position 1
  first, both are active until the other has handled the message too.
\<close>

theorem one_active_invariant_counterexample:
  "CharacterEntity_init example_NAME2ID example_CARDS 7 ''Example'' 1 0 =
      Inr (example_character 7 1 0 False True 10)
   \<and> CharacterEntity_init example_NAME2ID example_CARDS 8 ''Example'' 1 1 =
      Inr (example_character 8 1 1 False True 10)
   \<and> active_count 1 [example_character 7 1 0 False True 10,
                      example_character 8 1 1 False True 10] = 0
   \<and> active_count 1 [example_character 7 1 0 True True 10,
                      example_character 8 1 1 False True 10] = 1
   \<and> active_count 1 [example_character 7 1 0 True True 10,
                      fst (snd (msg_handler example_lt (example_character 8 1 1 False True 10)
                                  (change_event 1 1)))] = 2"
  by (simp add: CharacterEntity_init_def example_NAME2ID_def example_CARDS_def example_card_def
      example_character_def active_count_def msg_handler_def change_event_def single_queue_def
      message_def Let_def)

section \<open>Use of a skill\<close>

text \<open>
  C4, as the code has it. A \<^verbatim>\<open>UseSkillMsg\<close> with a non-empty target list is at the head
  of the queue, and a character that is not among its \<^verbatim>\<open>responded_entities\<close> handles
  it. If the position of the character is the \<^verbatim>\<open>user_pos\<close> of the message, the call
  returns \<^verbatim>\<open>True\<close>, the character is unchanged, the message is removed from the queue
  and exactly one new message, a \<^verbatim>\<open>DealDamageMsg\<close>, is stored and put into the queue,
  and nothing else. If the position is another one, the call returns \<^verbatim>\<open>False\<close> and
  changes nothing: a character elsewhere never removes the message.
\<close>

theorem use_skill_consumed_by_position:
  assumes "queue q \<noteq> []"
    and "body (head_message q) = UseSkillMsg user_pos sn tg"
    and "tg \<noteq> []"
    and "uuid c \<notin> set (responded_entities (head_message q))"
  shows "(position c = user_pos \<longrightarrow>
            fst (msg_handler lt c q) = Returned True \<and>
            fst (snd (msg_handler lt c q)) = c \<and>
            (\<exists>m. memory (snd (snd (msg_handler lt c q))) = memory q @ [m] \<and> is_DealDamageMsg m \<and>
                 (wf_queue q \<longrightarrow>
                    mset (contents (snd (snd (msg_handler lt c q)))) =
                      add_mset m (mset (contents q) - {#head_message q#}))) \<and>
            mset (queue (snd (snd (msg_handler lt c q)))) =
              add_mset (length (memory q)) (mset (queue q) - {#queue q ! 0#}))
       \<and> (position c \<noteq> user_pos \<longrightarrow> msg_handler lt c q = (Returned False, c, q))"
proof -
  obtain r rest where q: "queue q = r # rest" using assms(1) by (cases "queue q") auto
  obtain t ts where tg: "tg = t # ts" using assms(3) by (cases tg) auto
  have b: "body (memory q ! r) = UseSkillMsg user_pos sn tg"
    and f: "uuid c \<notin> set (responded_entities (memory q ! r))"
    using assms(2,4) q by (simp_all add: head_message_def)
  note uh = msg_handler_use_skill[where lt = lt, OF q b f]
  let ?m = "new_DealDamageMsg (player_id c) [(fst t, snd t, ElementType_NONE, 2)] ElementalReactionType_NONE"
  have "fst (msg_handler lt c q) = Returned True \<and>
            fst (snd (msg_handler lt c q)) = c \<and>
            (\<exists>m. memory (snd (snd (msg_handler lt c q))) = memory q @ [m] \<and> is_DealDamageMsg m \<and>
                 (wf_queue q \<longrightarrow>
                    mset (contents (snd (snd (msg_handler lt c q)))) =
                      add_mset m (mset (contents q) - {#head_message q#}))) \<and>
            mset (queue (snd (snd (msg_handler lt c q)))) =
              add_mset (length (memory q)) (mset (queue q) - {#queue q ! 0#})"
    if p: "position c = user_pos"
  proof -
    from uh(3)[OF p tg] obtain heap' where m: "mset heap' = mset rest"
      and h: "msg_handler lt c q = (Returned True, c, put lt (q\<lparr>queue := heap'\<rparr>) ?m)"
      by blast
    have 1: "memory (snd (snd (msg_handler lt c q))) = memory q @ [?m]"
      by (simp add: h memory_put)
    have 2: "is_DealDamageMsg ?m" by (simp add: is_DealDamageMsg_def new_DealDamageMsg_def)
    have 3: "wf_queue q \<longrightarrow> mset (contents (snd (snd (msg_handler lt c q)))) =
                      add_mset ?m (mset (contents q) - {#head_message q#})"
      using contents_after_put[OF _ q m, of lt ?m] by (simp add: h)
    have 4: "mset (queue (snd (snd (msg_handler lt c q)))) =
              add_mset (length (memory q)) (mset (queue q) - {#queue q ! 0#})"
      using queue_put[of lt "q\<lparr>queue := heap'\<rparr>" ?m] m by (simp add: h q)
    show ?thesis using 1 2 3 4 by (simp add: h)
  qed
  moreover have "msg_handler lt c q = (Returned False, c, q)" if "position c \<noteq> user_pos"
    using uh(1)[OF that] .
  ultimately show ?thesis by blast
qed

theorem use_skill_consumed_by_position_witness:
  "fst (msg_handler example_lt (example_character 7 1 0 True True 10) (use_skill_event 1 0 [(2, 0)]))
     = Returned True
   \<and> mset (queue (snd (snd (msg_handler example_lt (example_character 7 1 0 True True 10)
        (use_skill_event 1 0 [(2, 0)]))))) = {#1#}
   \<and> msg_handler example_lt (example_character 8 1 1 False True 10) (use_skill_event 1 0 [(2, 0)])
     = (Returned False, example_character 8 1 1 False True 10, use_skill_event 1 0 [(2, 0)])"
  using use_skill_consumed_by_position[of "use_skill_event 1 0 [(2, 0)]" 0 "''Normal Attack''"
      "[(2, 0)]" "example_character 7 1 0 True True 10" example_lt]
    use_skill_consumed_by_position[of "use_skill_event 1 0 [(2, 0)]" 0 "''Normal Attack''"
      "[(2, 0)]" "example_character 8 1 1 False True 10" example_lt]
  by (simp add: use_skill_event_def single_queue_def message_def head_message_def
      example_character_def)

text \<open>
  With an empty target list the character at the \<^verbatim>\<open>user_pos\<close> removes the message and
  \<^verbatim>\<open>msg.skill_target[0]\<close> raises: the queue is left empty, no \<^verbatim>\<open>DealDamageMsg\<close> is
  put.
\<close>

theorem use_skill_empty_targets_counterexample:
  "msg_handler example_lt (example_character 7 1 0 True True 10) (use_skill_event 1 0 [])
     = (Raised IndexError, example_character 7 1 0 True True 10,
        \<lparr>queue = [], memory = [message 1 [] (UseSkillMsg 0 ''Normal Attack'' [])]\<rparr>)"
  by (simp add: msg_handler_def use_skill_event_def single_queue_def message_def Let_def
      example_character_def get_def heappop_def)

text \<open>
  C5, as the code has it. When a character consumes a \<^verbatim>\<open>UseSkillMsg\<close> with a non-empty
  target list, the \<^verbatim>\<open>DealDamageMsg\<close> it puts is sent by the character's player and
  has exactly one damage tuple: the player and the position of the first entry of the
  target list, \<^verbatim>\<open>ElementType.NONE\<close> and the amount 2, whatever the skill; its
  \<^verbatim>\<open>elemental_reaction_triggered\<close> is \<^verbatim>\<open>ElementalReactionType.NONE\<close>.
\<close>

theorem use_skill_damage_content:
  assumes "queue q \<noteq> []"
    and "body (head_message q) = UseSkillMsg user_pos sn tg"
    and "tg \<noteq> []"
    and "uuid c \<notin> set (responded_entities (head_message q))"
    and "position c = user_pos"
  shows "memory (snd (snd (msg_handler lt c q))) =
           memory q @ [new_DealDamageMsg (player_id c)
                         [(fst (hd tg), snd (hd tg), ElementType_NONE, 2)]
                         ElementalReactionType_NONE]
       \<and> body (last (memory (snd (snd (msg_handler lt c q))))) =
           DealDamageMsg [(fst (hd tg), snd (hd tg), ElementType_NONE, 2)] ElementalReactionType_NONE"
proof -
  obtain r rest where q: "queue q = r # rest" using assms(1) by (cases "queue q") auto
  obtain t ts where tg: "tg = t # ts" using assms(3) by (cases tg) auto
  have b: "body (memory q ! r) = UseSkillMsg user_pos sn tg"
    and f: "uuid c \<notin> set (responded_entities (memory q ! r))"
    using assms(2,4) q by (simp_all add: head_message_def)
  from msg_handler_use_skill(3)[where lt = lt, OF q b f assms(5) tg] obtain heap' where
    h: "msg_handler lt c q = (Returned True, c, put lt (q\<lparr>queue := heap'\<rparr>)
          (new_DealDamageMsg (player_id c) [(fst t, snd t, ElementType_NONE, 2)] ElementalReactionType_NONE))"
    by blast
  show ?thesis by (simp add: h memory_put tg new_DealDamageMsg_def)
qed

theorem use_skill_damage_content_witness:
  "memory (snd (snd (msg_handler example_lt (example_character 7 1 0 True True 10)
      (use_skill_event 1 0 [(2, 1), (2, 2)]))))
    = [message 1 [] (UseSkillMsg 0 ''Normal Attack'' [(2, 1), (2, 2)]),
       new_DealDamageMsg 1 [(2, 1, ElementType_NONE, 2)] ElementalReactionType_NONE]"
  using use_skill_damage_content[of "use_skill_event 1 0 [(2, 1), (2, 2)]" 0 "''Normal Attack''"
      "[(2, 1), (2, 2)]" "example_character 7 1 0 True True 10" example_lt]
  by (simp add: use_skill_event_def single_queue_def message_def head_message_def
      example_character_def)

text \<open>
  The later entries of the target list get no damage tuple: with the targets
  \<open>(2, 0)\<close> and \<open>(2, 1)\<close> the only tuple is the one for \<open>(2, 0)\<close>.
\<close>

theorem use_skill_later_targets_counterexample:
  "damage_targets (last (memory (snd (snd (msg_handler example_lt
      (example_character 7 1 0 True True 10) (use_skill_event 1 0 [(2, 0), (2, 1)]))))))
    = [(2, 0, ElementType_NONE, 2)]"
  by (simp add: msg_handler_def use_skill_event_def single_queue_def message_def Let_def
      example_character_def get_def heappop_def put_def new_DealDamageMsg_def damage_targets_def)

text \<open>
  C9, as the code has it. The test for a \<^verbatim>\<open>UseSkillMsg\<close> compares the position only;
  the player of the character is not a hypothesis below. Any character that is not among
  the \<^verbatim>\<open>responded_entities\<close> and whose position is the \<^verbatim>\<open>user_pos\<close> of a
  \<^verbatim>\<open>UseSkillMsg\<close> with a non-empty target list, also a character of the opposing
  player, removes the message from the queue and puts one new \<^verbatim>\<open>DealDamageMsg\<close> whose
  \<^verbatim>\<open>sender_id\<close> is the \<^verbatim>\<open>player_id\<close> of that character.
\<close>

theorem use_skill_position_only:
  assumes "queue q \<noteq> []"
    and "body (head_message q) = UseSkillMsg user_pos sn tg"
    and "tg \<noteq> []"
    and "uuid c \<notin> set (responded_entities (head_message q))"
    and "position c = user_pos"
  shows "fst (msg_handler lt c q) = Returned True
       \<and> mset (queue (snd (snd (msg_handler lt c q)))) =
           add_mset (length (memory q)) (mset (queue q) - {#queue q ! 0#})
       \<and> length (memory (snd (snd (msg_handler lt c q)))) = Suc (length (memory q))
       \<and> is_DealDamageMsg (memory (snd (snd (msg_handler lt c q))) ! length (memory q))
       \<and> sender_id (memory (snd (snd (msg_handler lt c q))) ! length (memory q)) = player_id c"
proof -
  obtain r rest where q: "queue q = r # rest" using assms(1) by (cases "queue q") auto
  obtain t ts where tg: "tg = t # ts" using assms(3) by (cases tg) auto
  have b: "body (memory q ! r) = UseSkillMsg user_pos sn tg"
    and f: "uuid c \<notin> set (responded_entities (memory q ! r))"
    using assms(2,4) q by (simp_all add: head_message_def)
  from msg_handler_use_skill(3)[where lt = lt, OF q b f assms(5) tg] obtain heap' where
    m: "mset heap' = mset rest" and
    h: "msg_handler lt c q = (Returned True, c, put lt (q\<lparr>queue := heap'\<rparr>)
          (new_DealDamageMsg (player_id c) [(fst t, snd t, ElementType_NONE, 2)] ElementalReactionType_NONE))"
    by blast
  show ?thesis
    using queue_put[of lt "q\<lparr>queue := heap'\<rparr>" "new_DealDamageMsg (player_id c) [(fst t, snd t, ElementType_NONE, 2)] ElementalReactionType_NONE"] m
    by (simp add: h memory_put q new_DealDamageMsg_def is_DealDamageMsg_def)
qed

theorem use_skill_position_only_witness:
  "player_id (example_character 10 2 0 True True 10) \<noteq> sender_id (head_message (use_skill_event 1 0 [(2, 0)]))
   \<and> fst (msg_handler example_lt (example_character 10 2 0 True True 10) (use_skill_event 1 0 [(2, 0)]))
       = Returned True
   \<and> mset (queue (snd (snd (msg_handler example_lt (example_character 10 2 0 True True 10)
        (use_skill_event 1 0 [(2, 0)]))))) = {#1#}
   \<and> sender_id (memory (snd (snd (msg_handler example_lt (example_character 10 2 0 True True 10)
        (use_skill_event 1 0 [(2, 0)])))) ! 1) = 2"
  using use_skill_position_only[of "use_skill_event 1 0 [(2, 0)]" 0 "''Normal Attack''"
      "[(2, 0)]" "example_character 10 2 0 True True 10" example_lt]
  by (simp add: use_skill_event_def single_queue_def message_def head_message_def
      example_character_def)

text \<open>
  With an empty target list the character of the opposing player at the \<^verbatim>\<open>user_pos\<close>
  removes the message, and the call raises before any \<^verbatim>\<open>DealDamageMsg\<close> is put.
\<close>

theorem use_skill_opponent_empty_targets_counterexample:
  "msg_handler example_lt (example_character 10 2 0 True True 10) (use_skill_event 1 0 [])
     = (Raised IndexError, example_character 10 2 0 True True 10,
        \<lparr>queue = [], memory = [message 1 [] (UseSkillMsg 0 ''Normal Attack'' [])]\<rparr>)"
  by (simp add: msg_handler_def use_skill_event_def single_queue_def message_def Let_def
      example_character_def get_def heappop_def)

end
